theory Spec2Isabelle
  imports Complex_Main
begin

section \<open>Tensors and failures of the numeric backend\<close>

text \<open>
  Tensors are nested lists of reals: a batch is a list of rows (one row per example), a
  three-dimensional tensor a list of such batches. Floating point is idealised to
  \<^typ>\<open>real\<close>. Every exception the Python code can raise is a value of \<open>py_error\<close>,
  returned with \<open>Inl\<close>.
\<close>

type_synonym vec = "real list"
type_synonym tensor2 = "real list list"
type_synonym tensor3 = "real list list list"

datatype py_error =
    IndexError
  | RuntimeError
  | ValueError
  | UnboundLocalError
  | AssertionError
  | FileExistsError
  | NotADirectoryError
  | IsADirectoryError

subsection \<open>Fully connected layers (\<open>nn.Linear\<close>)\<close>

text \<open>
  \<open>nn.Linear(n_in, n_out)\<close> holds a weight matrix of shape \<open>(n_out, n_in)\<close> and a bias of
  length \<open>n_out\<close>; a negative size is rejected when the parameter tensors are allocated.
  The freshly drawn initial parameters are the arguments \<open>w0\<close> and \<open>b0\<close>.
\<close>

record linear =
  in_features :: nat
  out_features :: nat
  weight :: "real list list"
  bias :: "real list"

definition nn_Linear :: "(nat \<Rightarrow> nat \<Rightarrow> real) \<Rightarrow> (nat \<Rightarrow> real) \<Rightarrow> int \<Rightarrow> int \<Rightarrow> py_error + linear" where
  "nn_Linear w0 b0 n_in n_out =
     (if n_in < 0 \<or> n_out < 0 then Inl RuntimeError
      else Inr \<lparr>in_features = nat n_in, out_features = nat n_out,
                weight = map (\<lambda>i. map (\<lambda>j. w0 i j) [0..<nat n_in]) [0..<nat n_out],
                bias = map b0 [0..<nat n_out]\<rparr>)"

definition dot :: "vec \<Rightarrow> vec \<Rightarrow> real" where
  "dot w r = sum_list (map2 (*) w r)"

text \<open>Applying a layer to one example: \<open>r W\<^sup>T + b\<close>, refused when the widths disagree.\<close>

definition linear_row :: "linear \<Rightarrow> vec \<Rightarrow> py_error + vec" where
  "linear_row l r =
     (if length r \<noteq> in_features l then Inl RuntimeError
      else Inr (map2 (\<lambda>w b. dot w r + b) (weight l) (bias l)))"

fun linear_apply :: "linear \<Rightarrow> tensor2 \<Rightarrow> py_error + tensor2" where
  "linear_apply l [] = Inr []"
| "linear_apply l (r # rs) =
     (case linear_row l r of
        Inl e \<Rightarrow> Inl e
      | Inr y \<Rightarrow> (case linear_apply l rs of Inl e \<Rightarrow> Inl e | Inr ys \<Rightarrow> Inr (y # ys)))"

definition relu :: "real \<Rightarrow> real" where
  "relu v = max 0 v"

section \<open>The logits-distribution model\<close>

text \<open>
  The object state of \<open>LogitsProbabilityDistribution\<close>. The base class \<open>DistilledNet\<close> is
  not part of the sources at hand; what it stores is taken as given: the teacher (through
  its \<open>get_logits\<close> query), the loss function, the device and the attribute \<open>output_size\<close>
  that \<open>predict\<close> reads.
\<close>

record LogitsProbabilityDistribution =
  teacher :: "tensor2 \<Rightarrow> py_error + tensor3"
  loss :: "tensor2 \<times> tensor2 \<Rightarrow> tensor3 \<Rightarrow> py_error + real"
  device :: string
  output_size :: nat
  use_hard_labels :: bool
  learning_rate :: real
  scale_teacher_logits :: bool
  layers :: "linear list"
  variance_lower_bound :: real

text \<open>
  The constructor: its loop \<open>for i in range(len(layer_sizes) - 1)\<close> builds the layers,
  then \<open>torch_optim.Adam(self.parameters(), lr=self.learning_rate)\<close> is created. Adam
  rejects a negative learning rate and an empty parameter list (no layer was built), both
  with \<open>ValueError\<close>.
\<close>

fun build_layers ::
  "(nat \<Rightarrow> nat \<Rightarrow> nat \<Rightarrow> real) \<Rightarrow> (nat \<Rightarrow> nat \<Rightarrow> real) \<Rightarrow> nat \<Rightarrow> int list \<Rightarrow> py_error + linear list" where
  "build_layers w0 b0 i (a # b # rest) =
     (case nn_Linear (w0 i) (b0 i) a b of
        Inl e \<Rightarrow> Inl e
      | Inr l \<Rightarrow> (case build_layers w0 b0 (Suc i) (b # rest) of
                   Inl e \<Rightarrow> Inl e
                 | Inr ls \<Rightarrow> Inr (l # ls)))"
| "build_layers w0 b0 i rest = Inr []"

definition LogitsProbabilityDistribution_init ::
  "int list \<Rightarrow> (tensor2 \<Rightarrow> py_error + tensor3) \<Rightarrow> string \<Rightarrow> bool \<Rightarrow> real \<Rightarrow> bool \<Rightarrow>
   (tensor2 \<times> tensor2 \<Rightarrow> tensor3 \<Rightarrow> py_error + real) \<Rightarrow> nat \<Rightarrow>
   (nat \<Rightarrow> nat \<Rightarrow> nat \<Rightarrow> real) \<Rightarrow> (nat \<Rightarrow> nat \<Rightarrow> real) \<Rightarrow>
   py_error + LogitsProbabilityDistribution" where
  "LogitsProbabilityDistribution_init layer_sizes tch dev hard lr scale gnll osz w0 b0 =
     (case build_layers w0 b0 0 layer_sizes of
        Inl e \<Rightarrow> Inl e
      | Inr ls \<Rightarrow>
          if lr < 0 \<or> ls = [] then Inl ValueError
          else
            Inr \<lparr>teacher = tch, loss = gnll, device = dev, output_size = osz,
                 use_hard_labels = hard, learning_rate = lr, scale_teacher_logits = scale,
                 layers = ls, variance_lower_bound = 1 / 1000\<rparr>)"

subsection \<open>\<open>forward\<close>\<close>

text \<open>The loop over \<open>self.layers[:-1]\<close>: a layer, then ReLU.\<close>

fun hidden_layers :: "linear list \<Rightarrow> tensor2 \<Rightarrow> py_error + tensor2" where
  "hidden_layers [] x = Inr x"
| "hidden_layers (l # ls) x =
     (case linear_apply l x of
        Inl e \<Rightarrow> Inl e
      | Inr y \<Rightarrow> hidden_layers ls (map (map relu) y))"

definition softplus_floor :: "real \<Rightarrow> real \<Rightarrow> real" where
  "softplus_floor lb z = ln (1 + exp z) + lb"

text \<open>
  \<open>self.layers[-1]\<close> raises on an empty layer list. \<open>mid = int(x.shape[-1] / 2)\<close> is the
  floor of half the width; the mean is the columns before \<open>mid\<close>, the variance comes from
  the columns from \<open>mid\<close> on.
\<close>

definition forward :: "LogitsProbabilityDistribution \<Rightarrow> tensor2 \<Rightarrow> py_error + (tensor2 \<times> tensor2)" where
  "forward self x =
     (if layers self = [] then Inl IndexError
      else
        (case hidden_layers (butlast (layers self)) x of
           Inl e \<Rightarrow> Inl e
         | Inr h \<Rightarrow>
             (case linear_apply (last (layers self)) h of
                Inl e \<Rightarrow> Inl e
              | Inr y \<Rightarrow>
                  Inr (map (\<lambda>r. take (length r div 2) r) y,
                       map (\<lambda>r. map (softplus_floor (variance_lower_bound self))
                                     (drop (length r div 2) r)) y))))"

subsection \<open>Sampling: \<open>predict\<close> and \<open>predict_logits\<close>\<close>

text \<open>
  \<open>MultivariateNormal(loc, covariance_matrix=diag(var))\<close> rejects a covariance that is not
  positive definite; its \<open>rsample([n])\<close> is \<open>loc + L eps\<close> with \<open>L\<close> the Cholesky factor of
  the covariance, here \<open>diag(sqrt var)\<close>, and fails when \<open>loc\<close> and the covariance disagree
  in size. The standard-normal draws \<open>eps j k\<close> (draw \<open>j\<close>, component \<open>k\<close>) are an argument.
\<close>

definition rsample :: "vec \<Rightarrow> vec \<Rightarrow> nat \<Rightarrow> (nat \<Rightarrow> nat \<Rightarrow> real) \<Rightarrow> py_error + tensor2" where
  "rsample loc var n eps =
     (if list_ex (\<lambda>v. v \<le> 0) var then Inl ValueError
      else if length loc \<noteq> length var then Inl RuntimeError
      else Inr (map (\<lambda>j. map (\<lambda>k. loc ! k + sqrt (var ! k) * eps j k) [0..<length loc])
                    [0..<n]))"

text \<open>
  \<open>samples[i, :, :] = t\<close> for a block \<open>t\<close> of width \<open>d\<close> and a slot of width \<open>K\<close>: the widths
  agree, or \<open>d = 1\<close> and the single column is broadcast, or the assignment fails.
\<close>

definition assign_samples :: "nat \<Rightarrow> nat \<Rightarrow> tensor2 \<Rightarrow> py_error + tensor2" where
  "assign_samples K d t =
     (if d = K then Inr t
      else if d = 1 then Inr (map (\<lambda>r. replicate K (hd r)) t)
      else Inl RuntimeError)"

text \<open>The loop \<open>for i in range(input_.size(0))\<close> over the rows of mean and variance.\<close>

fun sample_loop ::
  "nat \<Rightarrow> nat \<Rightarrow> (nat \<Rightarrow> nat \<Rightarrow> nat \<Rightarrow> real) \<Rightarrow> nat \<Rightarrow> (vec \<times> vec) list \<Rightarrow> py_error + tensor3" where
  "sample_loop K n eps i [] = Inr []"
| "sample_loop K n eps i ((loc, var) # rest) =
     (case rsample loc var n (eps i) of
        Inl e \<Rightarrow> Inl e
      | Inr t \<Rightarrow>
          (case assign_samples K (length loc) t of
             Inl e \<Rightarrow> Inl e
           | Inr blk \<Rightarrow>
               (case sample_loop K n eps (Suc i) rest of
                  Inl e \<Rightarrow> Inl e
                | Inr out \<Rightarrow> Inr (blk # out))))"

text \<open>The tensor operations of the last statement of \<open>predict\<close>.\<close>

definition t_exp :: "tensor3 \<Rightarrow> tensor3" where
  "t_exp t = map (map (map exp)) t"

definition t_sum_keepdim :: "tensor3 \<Rightarrow> tensor3" where
  "t_sum_keepdim t = map (map (\<lambda>r. [sum_list r])) t"

definition t_add_scalar :: "tensor3 \<Rightarrow> real \<Rightarrow> tensor3" where
  "t_add_scalar t c = map (map (map (\<lambda>v. v + c))) t"

definition t_div_keepdim :: "tensor3 \<Rightarrow> tensor3 \<Rightarrow> tensor3" where
  "t_div_keepdim a d = map2 (map2 (\<lambda>r q. map (\<lambda>v. v / hd q) r)) a d"

text \<open>
  \<open>num_samples\<close> is \<open>None\<close> or a Python integer; a negative count is rejected by
  \<open>torch.zeros\<close>. The slot width is \<open>int(self.output_size / 2)\<close>.
\<close>

definition predict ::
  "LogitsProbabilityDistribution \<Rightarrow> tensor2 \<Rightarrow> int option \<Rightarrow> (nat \<Rightarrow> nat \<Rightarrow> nat \<Rightarrow> real) \<Rightarrow> py_error + tensor3" where
  "predict self input num_samples eps =
     (let n = (case num_samples of None \<Rightarrow> 50 | Some k \<Rightarrow> k) in
      case forward self input of
        Inl e \<Rightarrow> Inl e
      | Inr (mean, var) \<Rightarrow>
          if n < 0 then Inl RuntimeError
          else
            (case sample_loop (output_size self div 2) (nat n) eps 0 (zip mean var) of
               Inl e \<Rightarrow> Inl e
             | Inr samples \<Rightarrow>
                 Inr (t_div_keepdim (t_exp samples)
                        (t_add_scalar (t_sum_keepdim (t_exp samples)) 1))))"

definition predict_logits ::
  "LogitsProbabilityDistribution \<Rightarrow> tensor2 \<Rightarrow> int option \<Rightarrow> (nat \<Rightarrow> nat \<Rightarrow> nat \<Rightarrow> real) \<Rightarrow> py_error + tensor3" where
  "predict_logits self input num_samples eps =
     (let n = (case num_samples of None \<Rightarrow> 50 | Some k \<Rightarrow> k) in
      case forward self input of
        Inl e \<Rightarrow> Inl e
      | Inr (mean, var) \<Rightarrow>
          if n < 0 then Inl RuntimeError
          else
            (case sample_loop (output_size self div 2) (nat n) eps 0 (zip mean var) of
               Inl e \<Rightarrow> Inl e
             | Inr samples \<Rightarrow> Inr samples))"

subsection \<open>Teacher predictions and the loss\<close>



definition calculate_loss ::
  "LogitsProbabilityDistribution \<Rightarrow> tensor2 \<times> tensor2 \<Rightarrow> tensor3 \<Rightarrow> nat list option \<Rightarrow> py_error + real" where
  "calculate_loss self outputs teacher_predictions labels = loss self outputs teacher_predictions"

section \<open>The Gaussian-sinus data set\<close>

text \<open>
  The file system is part of the state: the regular files with their content (the rows
  of numbers that \<open>np.savetxt\<close> writes and the CSV reader reads back) and the directories.
  A path is the list of its components. The draws of \<open>np.random\<close> are arguments.
  The attribute \<open>self.file\<close> is the field \<open>data_file\<close>.
\<close>

type_synonym path = "string list"

record filesystem =
  files :: "path \<rightharpoonup> real list list"
  dirs :: "path set"

record np_random =
  uniform :: "real \<Rightarrow> real \<Rightarrow> nat \<Rightarrow> vec"
  multivariate_normal :: "vec \<Rightarrow> tensor2 \<Rightarrow> vec"
  shuffle :: "tensor2 \<Rightarrow> tensor2"

record GaussianSinus =
  n_samples :: int
  train :: bool
  data_file :: path

definition path_exists :: "filesystem \<Rightarrow> path \<Rightarrow> bool" where
  "path_exists fs p = (files fs p \<noteq> None \<or> p \<in> dirs fs)"

text \<open>\<open>Path.mkdir(parents=True, exist_ok=True)\<close>.\<close>

definition mkdir_parents :: "path \<Rightarrow> filesystem \<Rightarrow> py_error + filesystem" where
  "mkdir_parents p fs =
     (if files fs p \<noteq> None then Inl FileExistsError
      else if list_ex (\<lambda>k. files fs (take k p) \<noteq> None) [0..<length p] then Inl NotADirectoryError
      else Inr (fs\<lparr>dirs := dirs fs \<union> set (map (\<lambda>k. take k p) [0..<Suc (length p)])\<rparr>))"

definition np_diag :: "vec \<Rightarrow> tensor2" where
  "np_diag v = map (\<lambda>i. map (\<lambda>j. if i = j then v ! i else 0) [0..<length v]) [0..<length v]"

text \<open>
  \<open>np.random.multivariate_normal(mean, cov)\<close> raises \<open>ValueError\<close> for a mean of
  length zero; otherwise it returns the draw.
\<close>

definition np_multivariate_normal :: "np_random \<Rightarrow> vec \<Rightarrow> tensor2 \<Rightarrow> py_error + vec" where
  "np_multivariate_normal rng mu cov =
     (if mu = [] then Inl ValueError else Inr (multivariate_normal rng mu cov))"

definition column_stack :: "vec \<Rightarrow> vec \<Rightarrow> py_error + tensor2" where
  "column_stack x y =
     (if length x \<noteq> length y then Inl ValueError else Inr (map2 (\<lambda>a b. [a, b]) x y))"

definition savetxt :: "path \<Rightarrow> tensor2 \<Rightarrow> filesystem \<Rightarrow> (py_error + unit) \<times> filesystem" where
  "savetxt p rows fs =
     (if p \<in> dirs fs then (Inl IsADirectoryError, fs)
      else (Inr (), fs\<lparr>files := (files fs)(p \<mapsto> rows)\<rparr>))"

text \<open>
  The local variable \<open>y\<close> is bound in the training branch only; it is \<open>None\<close> here when
  the branch taken leaves it unbound, and reading it then raises \<open>UnboundLocalError\<close>.
\<close>

definition sample_new_data ::
  "GaussianSinus \<Rightarrow> np_random \<Rightarrow> filesystem \<Rightarrow> (py_error + unit) \<times> filesystem" where
  "sample_new_data self rng fs =
     (case mkdir_parents (butlast (data_file self)) fs of
        Inl e \<Rightarrow> (Inl e, fs)
      | Inr fs1 \<Rightarrow>
          if n_samples self < 0 then (Inl ValueError, fs1)
          else
            (let x = uniform rng (- 3) 3 (nat (n_samples self));
                 y = (if train self then
                        (let mu = map sin x;
                             sigma = map (\<lambda>v. (15 / 100 * 1 / (1 + exp (- v)))\<^sup>2) x
                         in Some (np_multivariate_normal rng mu (np_diag sigma)))
                      else None)
             in case y of
                  None \<Rightarrow> (Inl UnboundLocalError, fs1)
                | Some (Inl e) \<Rightarrow> (Inl e, fs1)
                | Some (Inr yv) \<Rightarrow>
                    (case column_stack x yv of
                       Inl e \<Rightarrow> (Inl e, fs1)
                     | Inr combined_data \<Rightarrow> savetxt (data_file self) (shuffle rng combined_data) fs1)))"

definition validate_dataset :: "GaussianSinus \<Rightarrow> filesystem \<Rightarrow> py_error + unit" where
  "validate_dataset self fs =
     (case files fs (data_file self) of
        None \<Rightarrow> Inl IsADirectoryError
      | Some rows \<Rightarrow>
          if n_samples self - 1 = int (length rows) then Inr () else Inl AssertionError)"

definition GaussianSinus_init ::
  "path \<Rightarrow> bool \<Rightarrow> bool \<Rightarrow> int \<Rightarrow> np_random \<Rightarrow> filesystem \<Rightarrow> (py_error + GaussianSinus) \<times> filesystem" where
  "GaussianSinus_init store_file trn reuse_data n rng fs =
     (let self = \<lparr>n_samples = n, train = trn, data_file = store_file\<rparr> in
      if path_exists fs store_file \<and> reuse_data then
        (case validate_dataset self fs of
           Inl e \<Rightarrow> (Inl e, fs)
         | Inr u \<Rightarrow> (Inr self, fs))
      else
        (case sample_new_data self rng fs of
           (Inl e, fs') \<Rightarrow> (Inl e, fs')
         | (Inr u, fs') \<Rightarrow> (Inr self, fs')))"

section \<open>Uncertainty metrics\<close>

text \<open>Modelled from the spec: the Shannon entropy of a probability vector, used by
  \<open>uncertainty_separation_entropy\<close> of \<open>src/metrics.py\<close>, which is not among the sources
  (only its call in \<open>uncertainty_rotation\<close> is).
\<close>

definition entropy :: "vec \<Rightarrow> real" where
  "entropy p = - sum_list (map (\<lambda>q. q * ln q) p)"

text \<open>Modelled from the spec: the sample-averaged predictive distribution of one example,
  the mean over the sample axis of its \<open>S \<times> K\<close> block of draws (part of the missing
  \<open>uncertainty_separation_entropy\<close>).
\<close>

definition mean_over_samples :: "tensor2 \<Rightarrow> vec" where
  "mean_over_samples ss =
     (case ss of
        [] \<Rightarrow> []
      | s # rest \<Rightarrow> map (\<lambda>k. sum_list (map (\<lambda>r. r ! k) ss) / real (length ss)) [0..<length s])"

text \<open>Modelled from the spec: \<open>uncertainty_separation_entropy\<close> of the missing
  \<open>src/metrics.py\<close>. Per example: total is the entropy of the sample-averaged
  distribution, aleatoric the mean of the per-sample entropies, epistemic total minus
  aleatoric; returned in the order (total, epistemic, aleatoric) of the call site, which
  passes \<open>None\<close> for the labels.
\<close>

definition uncertainty_separation_entropy :: "tensor3 \<Rightarrow> nat list option \<Rightarrow> vec \<times> vec \<times> vec" where
  "uncertainty_separation_entropy predicted_distribution labels =
     (let total_uncertainty = map (\<lambda>ss. entropy (mean_over_samples ss)) predicted_distribution;
          aleatoric_uncertainty =
            map (\<lambda>ss. sum_list (map entropy ss) / real (length ss)) predicted_distribution;
          epistemic_uncertainty = map2 (-) total_uncertainty aleatoric_uncertainty
      in (total_uncertainty, epistemic_uncertainty, aleatoric_uncertainty))"

section \<open>Reference notions of the specification\<close>

text \<open>
  The softmax-like transform as the specification writes it, entry by entry:
  \<open>exp(s\<^sub>k) / (sum\<^sub>j exp(s\<^sub>j) + 1)\<close>. It is compared below with the tensor expression
  of \<open>predict\<close>.
\<close>

definition softmax_like :: "vec \<Rightarrow> vec" where
  "softmax_like s = map (\<lambda>v. exp v / (sum_list (map exp s) + 1)) s"

text \<open>A vector of the probability simplex: non-negative components that sum to one.\<close>

definition on_simplex :: "vec \<Rightarrow> bool" where
  "on_simplex p = (list_all (\<lambda>q. 0 \<le> q) p \<and> sum_list p = 1)"


section \<open>Example configurations\<close>

text \<open>
  A one-layer model with all parameters zero, as the constructor builds it from the layer
  sizes \<open>[1, 2]\<close> with a zero initialiser, and a teacher with one member and three classes.
\<close>

definition zero_model :: LogitsProbabilityDistribution where
  "zero_model =
     \<lparr>teacher = (\<lambda>inputs. Inr [[[1, 2, 3]]]), loss = (\<lambda>outputs tp. Inr 0), device = ''cpu'',
      output_size = 2, use_hard_labels = False, learning_rate = 1 / 1000,
      scale_teacher_logits = True,
      layers = [\<lparr>in_features = 1, out_features = 2, weight = [[0], [0]], bias = [0, 0]\<rparr>],
      variance_lower_bound = 1 / 1000\<rparr>"

text \<open>Named arguments for the constructor: a constant teacher, a zero loss, zero parameters.\<close>

definition const_teacher :: "tensor2 \<Rightarrow> py_error + tensor3" where
  "const_teacher inputs = Inr [[[1, 2, 3]]]"

definition zero_loss :: "tensor2 \<times> tensor2 \<Rightarrow> tensor3 \<Rightarrow> py_error + real" where
  "zero_loss outputs teacher_predictions = Inr 0"

definition zero_weight :: "nat \<Rightarrow> nat \<Rightarrow> nat \<Rightarrow> real" where
  "zero_weight i j k = 0"

definition zero_bias :: "nat \<Rightarrow> nat \<Rightarrow> real" where
  "zero_bias i j = 0"

text \<open>
  The model that the constructor builds from the layer sizes \<open>[1, 3]\<close>, whose final width
  is odd, with the zero initialiser.
\<close>

definition odd_model :: LogitsProbabilityDistribution where
  "odd_model =
     \<lparr>teacher = const_teacher, loss = zero_loss, device = ''cpu'',
      output_size = 3, use_hard_labels = False, learning_rate = 1 / 1000,
      scale_teacher_logits = False,
      layers = [\<lparr>in_features = 1, out_features = 3, weight = [[0], [0], [0]], bias = [0, 0, 0]\<rparr>],
      variance_lower_bound = 1 / 1000\<rparr>"

text \<open>
  A file system with the root directory only, and a generator whose uniform draws are
  all zero, whose normal draw is the mean and whose shuffle is the identity.
\<close>

definition empty_fs :: filesystem where
  "empty_fs = \<lparr>files = Map.empty, dirs = {[]}\<rparr>"

definition fixed_rng :: np_random where
  "fixed_rng = \<lparr>uniform = (\<lambda>low high n. replicate n 0),
                 multivariate_normal = (\<lambda>mu cov. mu),
                 shuffle = (\<lambda>rows. rows)\<rparr>"

text \<open>One example with two draws over two classes: \<open>(1/2, 1/2)\<close> and \<open>(1, 0)\<close>.\<close>

definition example_distribution :: tensor3 where
  "example_distribution = [[[1 / 2, 1 / 2], [1, 0]]]"

text \<open>Standard-normal draws that are all zero: every sample is the mean.\<close>

definition zero_noise :: "nat \<Rightarrow> nat \<Rightarrow> nat \<Rightarrow> real" where
  "zero_noise i j k = 0"

section \<open>Properties of \<open>forward\<close>\<close>

lemma softplus_floor_gt: "lb < softplus_floor lb z"
proof -
  have "1 < 1 + exp z" by simp
  then have "0 < ln (1 + exp z)" by (rule ln_gt_zero)
  then show ?thesis by (simp add: softplus_floor_def)
qed

lemma forward_Inr_var:
  assumes "forward self x = Inr (mean, var)" and "row \<in> set var" and "v \<in> set row"
  shows "variance_lower_bound self < v"
proof -
  from assms(1) obtain y where
    var: "var = map (\<lambda>r. map (softplus_floor (variance_lower_bound self)) (drop (length r div 2) r)) y"
    by (auto simp: forward_def split: if_splits sum.splits)
  from assms(2) var obtain r where
    "row = map (softplus_floor (variance_lower_bound self)) (drop (length r div 2) r)"
    by auto
  with assms(3) obtain z where "v = softplus_floor (variance_lower_bound self) z"
    by auto
  then show ?thesis by (simp add: softplus_floor_gt)
qed

lemma init_variance_lower_bound:
  "LogitsProbabilityDistribution_init layer_sizes tch dev hard lr scale gnll osz w0 b0 = Inr self
   \<Longrightarrow> variance_lower_bound self = 1 / 1000"
  by (auto simp: LogitsProbabilityDistribution_init_def split: sum.splits if_splits)

lemma init_zero_model:
  "LogitsProbabilityDistribution_init [1, 2] (\<lambda>inputs. Inr [[[1, 2, 3]]]) ''cpu'' False (1 / 1000) True
     (\<lambda>outputs tp. Inr 0) 2 (\<lambda>i j k. 0) (\<lambda>i j. 0) = Inr zero_model"
  by (simp add: LogitsProbabilityDistribution_init_def nn_Linear_def zero_model_def upt_rec)

lemma forward_zero_model:
  "forward zero_model [[0]] = Inr ([[0]], [[ln 2 + 1 / 1000]])"
  by (simp add: forward_def zero_model_def linear_row_def dot_def softplus_floor_def)

text \<open>
  Claim C1. Whatever parameters training has left in the layers of a constructed model,
  every entry of the variance that \<open>forward\<close> returns is at least the lower bound 0.001
  set by the constructor, hence strictly positive.
\<close>

theorem forward_variance_lower_bound:
  assumes "LogitsProbabilityDistribution_init layer_sizes tch dev hard lr scale gnll osz w0 b0 = Inr self"
    and "forward (self\<lparr>layers := trained\<rparr>) x = Inr (mean, var)"
    and "row \<in> set var" and "v \<in> set row"
  shows "1 / 1000 \<le> v \<and> 0 < v"
proof -
  have "variance_lower_bound (self\<lparr>layers := trained\<rparr>) = 1 / 1000"
    using assms(1) by (simp add: init_variance_lower_bound)
  with forward_Inr_var [OF assms(2-4)] show ?thesis by simp
qed

theorem forward_variance_lower_bound_witness:
  "forward (zero_model\<lparr>layers := layers zero_model\<rparr>) [[0]] = Inr ([[0]], [[ln 2 + 1 / 1000]])
   \<and> 1 / 1000 \<le> ln 2 + 1 / (1000::real) \<and> 0 < ln 2 + 1 / (1000::real)"
proof -
  have f: "forward (zero_model\<lparr>layers := layers zero_model\<rparr>) [[0]] = Inr ([[0]], [[ln 2 + 1 / 1000]])"
    using forward_zero_model by simp
  from forward_variance_lower_bound [OF init_zero_model f, of "[ln 2 + 1 / 1000]" "ln 2 + 1 / 1000"]
  show ?thesis using f by simp
qed

section \<open>Properties of \<open>predict\<close> and \<open>predict_logits\<close>\<close>

lemma transform_softmax_like:
  "t_div_keepdim (t_exp s) (t_add_scalar (t_sum_keepdim (t_exp s)) 1) = map (map softmax_like) s"
  by (simp add: t_div_keepdim_def t_exp_def t_add_scalar_def t_sum_keepdim_def softmax_like_def
      zip_map_map zip_same_conv_map comp_def)

lemma predict_eq_transform:
  "predict self input num_samples eps =
     (case predict_logits self input num_samples eps of
        Inl e \<Rightarrow> Inl e
      | Inr samples \<Rightarrow> Inr (map (map softmax_like) samples))"
  by (simp add: predict_def predict_logits_def Let_def transform_softmax_like
      split: sum.splits prod.splits)

lemma sum_list_exp_nonneg: "0 \<le> sum_list (map exp (s::real list))"
  by (induction s) (simp_all add: add_nonneg_nonneg)

lemma softmax_like_pos: "p \<in> set (softmax_like s) \<Longrightarrow> 0 < p"
proof -
  assume "p \<in> set (softmax_like s)"
  then obtain v where "p = exp v / (sum_list (map exp s) + 1)"
    by (auto simp: softmax_like_def)
  moreover have "0 < sum_list (map exp s) + 1"
    using sum_list_exp_nonneg [of s] by linarith
  ultimately show "0 < p" by simp
qed

lemma sum_list_divide: "sum_list (map (\<lambda>v. f v / c) xs) = sum_list (map f xs) / (c::real)"
  by (induction xs) (simp_all add: add_divide_distrib)

lemma softmax_like_sum:
  "sum_list (softmax_like s) = sum_list (map exp s) / (sum_list (map exp s) + 1)"
  by (simp add: softmax_like_def sum_list_divide)

lemma ln2_floor_pos: "\<not> ln (2::real) + 1 / 1000 \<le> 0"
proof -
  have "0 < ln (2::real)" by simp
  then show ?thesis by linarith
qed

lemma predict_zero_model:
  "predict zero_model [[0]] (Some 1) zero_noise = Inr [[[1 / 2]]]"
  by (simp add: ln2_floor_pos predict_def forward_def zero_model_def linear_row_def dot_def
      softplus_floor_def rsample_def assign_samples_def zero_noise_def t_div_keepdim_def
      t_exp_def t_add_scalar_def t_sum_keepdim_def Let_def)

lemma linear_apply_length: "linear_apply l x = Inr y \<Longrightarrow> length y = length x"
  by (induction x arbitrary: y) (auto split: sum.splits)

lemma hidden_layers_length: "hidden_layers ls x = Inr y \<Longrightarrow> length y = length x"
proof (induction ls arbitrary: x)
  case Nil
  then show ?case by simp
next
  case (Cons l ls)
  then show ?case
    by (auto split: sum.splits dest!: linear_apply_length)
qed

lemma forward_length:
  assumes "forward self x = Inr (mean, var)"
  shows "length mean = length x \<and> length var = length x"
proof -
  from assms obtain h y where h: "hidden_layers (butlast (layers self)) x = Inr h"
    and y: "linear_apply (last (layers self)) h = Inr y"
    and mv: "mean = map (\<lambda>r. take (length r div 2) r) y"
      "var = map (\<lambda>r. map (softplus_floor (variance_lower_bound self)) (drop (length r div 2) r)) y"
    by (auto simp: forward_def split: if_splits sum.splits)
  from hidden_layers_length [OF h] linear_apply_length [OF y] mv show ?thesis by simp
qed

lemma rsample_ok:
  assumes "length loc = K" and "length var = K" and "\<forall>v\<in>set var. 0 < v"
  shows "rsample loc var n e =
           Inr (map (\<lambda>j. map (\<lambda>k. loc ! k + sqrt (var ! k) * e j k) [0..<K]) [0..<n])"
proof -
  have "\<not> list_ex (\<lambda>v. v \<le> 0) var"
    using assms(3) by (auto simp: list_ex_iff)
  then show ?thesis using assms(1,2) by (simp add: rsample_def)
qed

lemma sample_loop_ok:
  assumes "\<forall>p\<in>set mv. length (fst p) = K \<and> length (snd p) = K \<and> (\<forall>v\<in>set (snd p). 0 < v)"
  shows "\<exists>out. sample_loop K n eps i mv = Inr out \<and> length out = length mv \<and>
           (\<forall>a<length mv. out ! a =
              map (\<lambda>j. map (\<lambda>k. fst (mv ! a) ! k + sqrt (snd (mv ! a) ! k) * eps (i + a) j k)
                            [0..<K]) [0..<n])"
  using assms
proof (induction mv arbitrary: i)
  case Nil
  then show ?case by simp
next
  case (Cons p rest)
  obtain loc var where p: "p = (loc, var)" by (cases p)
  from Cons.prems p have lv: "length loc = K" "length var = K" "\<forall>v\<in>set var. 0 < v"
    by auto
  from Cons.prems have "\<forall>p\<in>set rest. length (fst p) = K \<and> length (snd p) = K \<and> (\<forall>v\<in>set (snd p). 0 < v)"
    by simp
  from Cons.IH [OF this, of "Suc i"] obtain out' where
    out': "sample_loop K n eps (Suc i) rest = Inr out'" "length out' = length rest"
      "\<forall>a<length rest. out' ! a =
          map (\<lambda>j. map (\<lambda>k. fst (rest ! a) ! k + sqrt (snd (rest ! a) ! k) * eps (Suc i + a) j k)
                        [0..<K]) [0..<n]"
    by blast
  let ?blk = "map (\<lambda>j. map (\<lambda>k. loc ! k + sqrt (var ! k) * eps i j k) [0..<K]) [0..<n]"
  have run: "sample_loop K n eps i (p # rest) = Inr (?blk # out')"
    using out'(1) lv by (simp add: p rsample_ok [OF lv] assign_samples_def)
  have "\<forall>a<length (p # rest). (?blk # out') ! a =
          map (\<lambda>j. map (\<lambda>k. fst ((p # rest) ! a) ! k + sqrt (snd ((p # rest) ! a) ! k) * eps (i + a) j k)
                        [0..<K]) [0..<n]"
  proof (intro allI impI)
    fix a assume "a < length (p # rest)"
    then show "(?blk # out') ! a =
          map (\<lambda>j. map (\<lambda>k. fst ((p # rest) ! a) ! k + sqrt (snd ((p # rest) ! a) ! k) * eps (i + a) j k)
                        [0..<K]) [0..<n]"
      using out'(3) by (cases a) (simp_all add: p)
  qed
  with run out'(2) show ?case by simp
qed

text \<open>
  Claim C4. When \<open>forward\<close> succeeds on a batch of \<open>B\<close> examples with mean and variance of
  width \<open>K\<close> (the number of classes, half the output size), \<open>predict\<close> returns a tensor of
  shape \<open>(B, S, K)\<close> for the sample count \<open>S\<close>, and its entry \<open>(i, j, k)\<close> is
  \<open>exp(s\<^sub>k) / (sum\<^sub>l exp(s\<^sub>l) + 1)\<close> for the raw Gaussian draw
  \<open>s\<^sub>k = mean\<^sub>i\<^sub>k + sqrt(var\<^sub>i\<^sub>k) * eps\<^sub>i\<^sub>j\<^sub>k\<close>.
\<close>

theorem predict_shape_and_entries:
  assumes fw: "forward self input = Inr (mean, var)"
    and lb: "variance_lower_bound self = 1 / 1000"
    and wm: "\<forall>r\<in>set mean. length r = K" and wv: "\<forall>r\<in>set var. length r = K"
    and os: "output_size self div 2 = K"
    and n: "n = (case num_samples of None \<Rightarrow> 50 | Some c \<Rightarrow> c)" "0 \<le> n"
  shows "\<exists>out. predict self input num_samples eps = Inr out \<and> length out = length input \<and>
           (\<forall>i<length input. length (out ! i) = nat n \<and>
              (\<forall>j<nat n. length (out ! i ! j) = K \<and>
                 (\<forall>k<K. out ! i ! j ! k =
                    exp (mean ! i ! k + sqrt (var ! i ! k) * eps i j k)
                    / (sum_list (map (\<lambda>l. exp (mean ! i ! l + sqrt (var ! i ! l) * eps i j l)) [0..<K]) + 1))))"
proof -
  from forward_length [OF fw] have len: "length mean = length input" "length var = length input"
    by simp_all
  have pos: "\<forall>p\<in>set (zip mean var). length (fst p) = K \<and> length (snd p) = K \<and> (\<forall>v\<in>set (snd p). 0 < v)"
  proof
    fix p assume p: "p \<in> set (zip mean var)"
    then have "(fst p, snd p) \<in> set (zip mean var)" by simp
    then have m: "fst p \<in> set mean" and v: "snd p \<in> set var"
      by (rule set_zip_leftD, rule set_zip_rightD)
    have "\<forall>q\<in>set (snd p). 0 < q"
    proof
      fix q assume "q \<in> set (snd p)"
      from forward_Inr_var [OF fw v this] lb show "0 < q" by simp
    qed
    with m v wm wv show "length (fst p) = K \<and> length (snd p) = K \<and> (\<forall>v\<in>set (snd p). 0 < v)"
      by simp
  qed
  from sample_loop_ok [OF pos, of "nat n" eps 0] obtain samples where
    s: "sample_loop K (nat n) eps 0 (zip mean var) = Inr samples"
      "length samples = length (zip mean var)"
      "\<forall>a<length (zip mean var). samples ! a =
          map (\<lambda>j. map (\<lambda>k. fst (zip mean var ! a) ! k + sqrt (snd (zip mean var ! a) ! k) * eps (0 + a) j k)
                        [0..<K]) [0..<nat n]"
    by blast
  have run: "predict self input num_samples eps = Inr (map (map softmax_like) samples)"
    using fw n s(1) os
    by (simp add: predict_def Let_def transform_softmax_like)
  have "\<forall>i<length input. length (map (map softmax_like) samples ! i) = nat n \<and>
              (\<forall>j<nat n. length (map (map softmax_like) samples ! i ! j) = K \<and>
                 (\<forall>k<K. map (map softmax_like) samples ! i ! j ! k =
                    exp (mean ! i ! k + sqrt (var ! i ! k) * eps i j k)
                    / (sum_list (map (\<lambda>l. exp (mean ! i ! l + sqrt (var ! i ! l) * eps i j l)) [0..<K]) + 1)))"
  proof (intro allI impI)
    fix i assume i: "i < length input"
    with s(3) len have
      "samples ! i = map (\<lambda>j. map (\<lambda>k. mean ! i ! k + sqrt (var ! i ! k) * eps i j k) [0..<K]) [0..<nat n]"
      by simp
    with i s(2) len show "length (map (map softmax_like) samples ! i) = nat n \<and>
              (\<forall>j<nat n. length (map (map softmax_like) samples ! i ! j) = K \<and>
                 (\<forall>k<K. map (map softmax_like) samples ! i ! j ! k =
                    exp (mean ! i ! k + sqrt (var ! i ! k) * eps i j k)
                    / (sum_list (map (\<lambda>l. exp (mean ! i ! l + sqrt (var ! i ! l) * eps i j l)) [0..<K]) + 1)))"
      by (simp add: softmax_like_def comp_def)
  qed
  moreover have "length (map (map softmax_like) samples) = length input"
    using s(2) len by simp
  ultimately show ?thesis using run by blast
qed

theorem predict_shape_and_entries_witness:
  "\<exists>out. predict zero_model [[0]] (Some 1) zero_noise = Inr out \<and> length out = 1
      \<and> length (out ! 0) = 1 \<and> length (out ! 0 ! 0) = 1 \<and> out ! 0 ! 0 ! 0 = 1 / 2"
proof -
  have lb: "variance_lower_bound zero_model = 1 / 1000"
    and os: "output_size zero_model div 2 = 1"
    by (simp_all add: zero_model_def)
  have wm: "\<forall>r\<in>set [[0::real]]. length r = 1"
    and wv: "\<forall>r\<in>set [[ln 2 + 1 / (1000::real)]]. length r = 1"
    by simp_all
  have n: "(1::int) = (case Some 1 of None \<Rightarrow> 50 | Some c \<Rightarrow> c)" "(0::int) \<le> 1"
    by simp_all
  from predict_shape_and_entries [OF forward_zero_model lb wm wv os n, of zero_noise]
  show ?thesis by (simp add: zero_noise_def)
qed

text \<open>
  Claim C3, as stated: every draw that \<open>predict\<close> returns lies on the probability simplex.
  It fails for the zero model on the input \<open>[[0]]\<close> with one draw: the single component is
  \<open>1/2\<close>, so the components do not sum to one.
\<close>

theorem predict_simplex_counterexample:
  "\<not> (case predict zero_model [[0]] (Some 1) zero_noise of
         Inl e \<Rightarrow> True
       | Inr out \<Rightarrow> list_all (list_all on_simplex) out)"
  by (simp add: predict_zero_model on_simplex_def)

lemma predict_logits_zero_model:
  "predict_logits zero_model [[0]] (Some 1) zero_noise = Inr [[[0]]]"
  by (simp add: ln2_floor_pos predict_logits_def forward_def zero_model_def linear_row_def dot_def
      softplus_floor_def rsample_def assign_samples_def zero_noise_def Let_def)

lemma softmax_like_nth:
  "k < length s \<Longrightarrow> softmax_like s ! k = exp (s ! k) / (sum_list (map exp s) + 1)"
  by (simp add: softmax_like_def)

lemma softmax_like_nonneg: "k < length s \<Longrightarrow> 0 \<le> softmax_like s ! k"
proof -
  assume "k < length s"
  then have "k < length (softmax_like s)"
    by (simp add: softmax_like_def)
  then have "softmax_like s ! k \<in> set (softmax_like s)"
    by (rule nth_mem)
  then have "0 < softmax_like s ! k" by (rule softmax_like_pos)
  then show ?thesis by simp
qed

text \<open>
  Claim C3, amended. \<open>predict\<close> maps every raw Gaussian draw \<open>s\<close> (the row that
  \<open>predict_logits\<close> returns on the same noise) to the vector with components
  \<open>exp(s\<^sub>k) / (E + 1)\<close>, where \<open>E\<close> is the sum of the \<open>exp(s\<^sub>j)\<close>: every component is
  non-negative, and the components sum to \<open>E / (E + 1)\<close> rather than to one.
\<close>

theorem predict_nonneg_sum:
  assumes "predict self input num_samples eps = Inr out"
  shows "\<exists>samples. predict_logits self input num_samples eps = Inr samples
           \<and> length out = length samples
           \<and> (\<forall>i<length samples. length (out ! i) = length (samples ! i)
                \<and> (\<forall>j<length (samples ! i).
                      length (out ! i ! j) = length (samples ! i ! j)
                      \<and> (\<forall>k<length (samples ! i ! j).
                            out ! i ! j ! k
                              = exp (samples ! i ! j ! k) / (sum_list (map exp (samples ! i ! j)) + 1)
                            \<and> 0 \<le> out ! i ! j ! k)
                      \<and> sum_list (out ! i ! j)
                          = sum_list (map exp (samples ! i ! j))
                            / (sum_list (map exp (samples ! i ! j)) + 1)))"
proof -
  from assms obtain samples where s: "predict_logits self input num_samples eps = Inr samples"
    and out: "out = map (map softmax_like) samples"
    by (auto simp: predict_eq_transform split: sum.splits)
  have "\<forall>i<length samples. length (out ! i) = length (samples ! i)
                \<and> (\<forall>j<length (samples ! i).
                      length (out ! i ! j) = length (samples ! i ! j)
                      \<and> (\<forall>k<length (samples ! i ! j).
                            out ! i ! j ! k
                              = exp (samples ! i ! j ! k) / (sum_list (map exp (samples ! i ! j)) + 1)
                            \<and> 0 \<le> out ! i ! j ! k)
                      \<and> sum_list (out ! i ! j)
                          = sum_list (map exp (samples ! i ! j))
                            / (sum_list (map exp (samples ! i ! j)) + 1))"
  proof (intro allI impI)
    fix i assume i: "i < length samples"
    have "\<forall>j<length (samples ! i).
                      length (out ! i ! j) = length (samples ! i ! j)
                      \<and> (\<forall>k<length (samples ! i ! j).
                            out ! i ! j ! k
                              = exp (samples ! i ! j ! k) / (sum_list (map exp (samples ! i ! j)) + 1)
                            \<and> 0 \<le> out ! i ! j ! k)
                      \<and> sum_list (out ! i ! j)
                          = sum_list (map exp (samples ! i ! j))
                            / (sum_list (map exp (samples ! i ! j)) + 1)"
    proof (intro allI impI)
      fix j assume j: "j < length (samples ! i)"
      from i j have o: "out ! i ! j = softmax_like (samples ! i ! j)"
        by (simp add: out)
      have l: "length (softmax_like (samples ! i ! j)) = length (samples ! i ! j)"
        by (simp add: softmax_like_def)
      show "length (out ! i ! j) = length (samples ! i ! j)
                      \<and> (\<forall>k<length (samples ! i ! j).
                            out ! i ! j ! k
                              = exp (samples ! i ! j ! k) / (sum_list (map exp (samples ! i ! j)) + 1)
                            \<and> 0 \<le> out ! i ! j ! k)
                      \<and> sum_list (out ! i ! j)
                          = sum_list (map exp (samples ! i ! j))
                            / (sum_list (map exp (samples ! i ! j)) + 1)"
        unfolding o using l softmax_like_nth softmax_like_nonneg softmax_like_sum by blast
    qed
    moreover from i have "length (out ! i) = length (samples ! i)"
      by (simp add: out)
    ultimately show "length (out ! i) = length (samples ! i)
                \<and> (\<forall>j<length (samples ! i).
                      length (out ! i ! j) = length (samples ! i ! j)
                      \<and> (\<forall>k<length (samples ! i ! j).
                            out ! i ! j ! k
                              = exp (samples ! i ! j ! k) / (sum_list (map exp (samples ! i ! j)) + 1)
                            \<and> 0 \<le> out ! i ! j ! k)
                      \<and> sum_list (out ! i ! j)
                          = sum_list (map exp (samples ! i ! j))
                            / (sum_list (map exp (samples ! i ! j)) + 1))"
      by blast
  qed
  moreover have "length out = length samples" by (simp add: out)
  ultimately show ?thesis using s by blast
qed

theorem predict_nonneg_sum_witness:
  "predict zero_model [[0]] (Some 1) zero_noise = Inr [[[1 / 2]]]
   \<and> predict_logits zero_model [[0]] (Some 1) zero_noise = Inr [[[0]]]
   \<and> [[[1 / 2 :: real]]] ! 0 ! 0 ! 0 = exp ([[[0 :: real]]] ! 0 ! 0 ! 0) / (sum_list (map exp ([[[0 :: real]]] ! 0 ! 0)) + 1)
   \<and> sum_list ([[[1 / 2 :: real]]] ! 0 ! 0)
       = sum_list (map exp ([[[0 :: real]]] ! 0 ! 0)) / (sum_list (map exp ([[[0 :: real]]] ! 0 ! 0)) + 1)"
  using predict_nonneg_sum [OF predict_zero_model] predict_zero_model predict_logits_zero_model
  by simp


text \<open>
  Claim C8. Leaving \<open>num_samples\<close> unspecified is the same as passing 50, for \<open>predict\<close>
  and for \<open>predict_logits\<close>.
\<close>

theorem default_num_samples:
  "predict self input None eps = predict self input (Some 50) eps
   \<and> predict_logits self input None eps = predict_logits self input (Some 50) eps"
  by (simp add: predict_def predict_logits_def)

section \<open>The loss ignores labels and the hard-label flag\<close>

lemma forward_flag: "forward (self\<lparr>use_hard_labels := h\<rparr>) x = forward self x"
  by (simp add: forward_def cong: sum.case_cong)

lemma predict_flag: "predict (self\<lparr>use_hard_labels := h\<rparr>) x ns eps = predict self x ns eps"
  by (simp add: predict_def forward_flag Let_def cong: sum.case_cong prod.case_cong if_cong)

lemma predict_logits_flag:
  "predict_logits (self\<lparr>use_hard_labels := h\<rparr>) x ns eps = predict_logits self x ns eps"
  by (simp add: predict_logits_def forward_flag Let_def cong: sum.case_cong prod.case_cong if_cong)

lemma init_flag:
  "(case LogitsProbabilityDistribution_init layer_sizes tch dev h lr scale gnll osz w0 b0 of
      Inl e \<Rightarrow> Inl e
    | Inr m \<Rightarrow> Inr (m\<lparr>use_hard_labels := h'\<rparr>))
   = LogitsProbabilityDistribution_init layer_sizes tch dev h' lr scale gnll osz w0 b0"
  by (simp add: LogitsProbabilityDistribution_init_def split: sum.splits)

text \<open>
  Claim C9. \<open>calculate_loss\<close> returns the loss of the outputs and the teacher predictions,
  whatever the labels and whatever the flag \<open>use_hard_labels\<close>; two runs that differ only
  in the labels and in the flag agree on the loss, on \<open>forward\<close> and on both predictions,
  and the constructor called with two values of the flag builds models that differ in the
  flag alone.
\<close>

theorem calculate_loss_noninterference:
  "calculate_loss (self\<lparr>use_hard_labels := h\<rparr>) outputs tp labels = loss self outputs tp
   \<and> calculate_loss (self\<lparr>use_hard_labels := h'\<rparr>) outputs tp labels'
       = calculate_loss (self\<lparr>use_hard_labels := h\<rparr>) outputs tp labels
   \<and> forward (self\<lparr>use_hard_labels := h'\<rparr>) x = forward (self\<lparr>use_hard_labels := h\<rparr>) x
   \<and> predict (self\<lparr>use_hard_labels := h'\<rparr>) x ns eps = predict (self\<lparr>use_hard_labels := h\<rparr>) x ns eps
   \<and> predict_logits (self\<lparr>use_hard_labels := h'\<rparr>) x ns eps
       = predict_logits (self\<lparr>use_hard_labels := h\<rparr>) x ns eps
   \<and> (case LogitsProbabilityDistribution_init layer_sizes tch dev h lr scale gnll osz w0 b0 of
         Inl e \<Rightarrow> Inl e
       | Inr m \<Rightarrow> Inr (m\<lparr>use_hard_labels := h'\<rparr>))
       = LogitsProbabilityDistribution_init layer_sizes tch dev h' lr scale gnll osz w0 b0"
  by (simp add: calculate_loss_def forward_flag predict_flag predict_logits_flag init_flag)

section \<open>Teacher logits\<close>






section \<open>The constructor and odd output widths\<close>

lemma init_odd_model:
  "LogitsProbabilityDistribution_init [1, 3] const_teacher ''cpu'' False (1 / 1000) False
     zero_loss 3 zero_weight zero_bias = Inr odd_model"
  by (simp add: LogitsProbabilityDistribution_init_def nn_Linear_def odd_model_def upt_rec
      zero_weight_def zero_bias_def)

lemma forward_odd_model:
  "forward odd_model [[0]] = Inr ([[0]], [[ln 2 + 1 / 1000, ln 2 + 1 / 1000]])"
  by (simp add: forward_def odd_model_def linear_row_def dot_def softplus_floor_def)

text \<open>
  Claim C6, as stated: a layer-size list with an odd final width is rejected by the
  constructor. The list \<open>[1, 3]\<close> is accepted, and \<open>forward\<close> of the model built splits the
  three outputs into a mean of width 1 and a variance of width 2.
\<close>

theorem odd_width_counterexample:
  "LogitsProbabilityDistribution_init [1, 3] const_teacher ''cpu'' False (1 / 1000) False
     zero_loss 3 zero_weight zero_bias = Inr odd_model
   \<and> forward odd_model [[0]] = Inr ([[0]], [[ln 2 + 1 / 1000, ln 2 + 1 / 1000]])"
  by (simp only: init_odd_model forward_odd_model simp_thms)

lemma nn_Linear_ok:
  "0 \<le> a \<Longrightarrow> 0 \<le> b \<Longrightarrow>
   \<exists>l. nn_Linear w b0 a b = Inr l \<and> length (weight l) = nat b \<and> length (bias l) = nat b"
  by (simp add: nn_Linear_def)

lemma build_layers_ok:
  "\<forall>s\<in>set layer_sizes. 0 \<le> s \<Longrightarrow> \<exists>ls. build_layers w0 b0 i layer_sizes = Inr ls"
proof (induction w0 b0 i layer_sizes rule: build_layers.induct)
  case (1 w0 b0 i a b rest)
  from "1.prems" have ab: "0 \<le> a" "0 \<le> b" by simp_all
  then obtain l where l: "nn_Linear (w0 i) (b0 i) a b = Inr l"
    using nn_Linear_ok by blast
  from "1.prems" have "\<forall>s\<in>set (b # rest). 0 \<le> s" by simp
  from "1.IH" [OF l this] obtain ls where "build_layers w0 b0 (Suc i) (b # rest) = Inr ls"
    by blast
  with l show ?case by simp
qed simp_all

lemma build_layers_last:
  "build_layers w0 b0 i layer_sizes = Inr ls \<Longrightarrow> ls \<noteq> [] \<Longrightarrow>
   length (weight (last ls)) = nat (last layer_sizes) \<and> length (bias (last ls)) = nat (last layer_sizes)"
proof (induction w0 b0 i layer_sizes arbitrary: ls rule: build_layers.induct)
  case (1 w0 b0 i a b rest)
  from "1.prems"(1) obtain l ls' where l: "nn_Linear (w0 i) (b0 i) a b = Inr l"
    and ls': "build_layers w0 b0 (Suc i) (b # rest) = Inr ls'" and ls: "ls = l # ls'"
    by (auto split: sum.splits)
  show ?case
  proof (cases "ls' = []")
    case True
    with ls' have "rest = []"
      by (cases rest) (auto split: sum.splits)
    moreover from l have "length (weight l) = nat b \<and> length (bias l) = nat b"
      by (auto simp: nn_Linear_def split: if_splits)
    ultimately show ?thesis using ls True by simp
  next
    case False
    from "1.IH" [OF l ls' False] ls False show ?thesis by simp
  qed
qed simp_all

lemma linear_apply_width:
  "linear_apply l x = Inr y \<Longrightarrow> r \<in> set y \<Longrightarrow> length r = min (length (weight l)) (length (bias l))"
proof (induction x arbitrary: y)
  case Nil
  then show ?case by simp
next
  case (Cons a x)
  then show ?case
    by (auto simp: linear_row_def split: sum.splits if_splits)
qed

lemma linear_apply_ok:
  assumes "\<forall>r\<in>set x. length r = in_features l"
  shows "\<exists>y. linear_apply l x = Inr y"
  using assms by (induction x) (auto simp: linear_row_def)

lemma nn_Linear_in:
  "nn_Linear w b0 a b = Inr l \<Longrightarrow> in_features l = nat a \<and> length (weight l) = nat b \<and> length (bias l) = nat b"
  by (auto simp: nn_Linear_def split: if_splits)

lemma build_layers_nonempty:
  "build_layers w0 b0 i (a # b # rest) = Inr ls \<Longrightarrow> ls \<noteq> []"
  by (auto split: sum.splits)

lemma build_layers_hidden:
  "build_layers w0 b0 i layer_sizes = Inr ls \<Longrightarrow> 2 \<le> length layer_sizes \<Longrightarrow>
   \<forall>r\<in>set x. length r = nat (hd layer_sizes) \<Longrightarrow>
   \<exists>h. hidden_layers (butlast ls) x = Inr h \<and> (\<forall>r\<in>set h. length r = in_features (last ls))"
proof (induction w0 b0 i layer_sizes arbitrary: ls x rule: build_layers.induct)
  case (1 w0 b0 i a b rest)
  from "1.prems"(1) obtain l ls' where l: "nn_Linear (w0 i) (b0 i) a b = Inr l"
    and ls': "build_layers w0 b0 (Suc i) (b # rest) = Inr ls'" and ls: "ls = l # ls'"
    by (auto split: sum.splits)
  from nn_Linear_in [OF l] have lin: "in_features l = nat a" "length (weight l) = nat b"
    "length (bias l) = nat b"
    by simp_all
  show ?case
  proof (cases rest)
    case Nil
    with ls' have "ls' = []" by simp
    with ls lin "1.prems"(3) show ?thesis by simp
  next
    case (Cons c rest')
    with ls' have ne: "ls' \<noteq> []" by (auto split: sum.splits)
    from "1.prems"(3) lin have "\<forall>r\<in>set x. length r = in_features l" by simp
    from linear_apply_ok [OF this] obtain y where y: "linear_apply l x = Inr y" by blast
    from linear_apply_width [OF y] lin have "\<forall>r\<in>set y. length r = nat b" by simp
    then have w: "\<forall>r\<in>set (map (map relu) y). length r = nat (hd (b # rest))" by simp
    have "2 \<le> length (b # rest)" using Cons by simp
    from "1.IH" [OF l ls' this w] obtain h where
      "hidden_layers (butlast ls') (map (map relu) y) = Inr h"
      "\<forall>r\<in>set h. length r = in_features (last ls')"
      by blast
    with y ls ne show ?thesis by simp
  qed
qed simp_all

text \<open>
  Claim C6, amended. A layer-size list of at least two non-negative sizes whose final
  width \<open>w\<close> is odd is not rejected: with a non-negative learning rate the constructor
  succeeds, and \<open>forward\<close> of the model built succeeds on every batch of the input width
  and splits the output into a mean of width \<open>(w - 1) / 2\<close> and a variance of width
  \<open>(w + 1) / 2\<close>.
\<close>

theorem odd_width_accepted:
  assumes nn: "\<forall>s\<in>set layer_sizes. 0 \<le> s" and two: "2 \<le> length layer_sizes"
    and lr: "0 \<le> lr" and od: "odd (last layer_sizes)"
  shows "\<exists>self. LogitsProbabilityDistribution_init layer_sizes tch dev hard lr scale gnll osz w0 b0 = Inr self
           \<and> (\<forall>x. (\<forall>r\<in>set x. length r = nat (hd layer_sizes)) \<longrightarrow>
                (\<exists>mean var. forward self x = Inr (mean, var)
                   \<and> length mean = length x \<and> length var = length x
                   \<and> (\<forall>r\<in>set mean. length r = nat (last layer_sizes) div 2)
                   \<and> (\<forall>r\<in>set var. length r = nat (last layer_sizes) div 2 + 1)))"
proof -
  from build_layers_ok [OF nn] obtain ls where ls: "build_layers w0 b0 0 layer_sizes = Inr ls"
    by blast
  from two obtain a b rest where sz: "layer_sizes = a # b # rest"
    by (cases layer_sizes; cases "tl layer_sizes") auto
  from ls sz have "build_layers w0 b0 0 (a # b # rest) = Inr ls" by simp
  then have ne: "ls \<noteq> []" by (rule build_layers_nonempty)
  let ?self = "\<lparr>teacher = tch, loss = gnll, device = dev, output_size = osz,
               use_hard_labels = hard, learning_rate = lr, scale_teacher_logits = scale,
               layers = ls, variance_lower_bound = 1 / 1000\<rparr>"
  have init: "LogitsProbabilityDistribution_init layer_sizes tch dev hard lr scale gnll osz w0 b0 = Inr ?self"
    using ls lr ne by (simp add: LogitsProbabilityDistribution_init_def)
  from od nn sz have w: "nat (last layer_sizes) - nat (last layer_sizes) div 2 = nat (last layer_sizes) div 2 + 1"
  proof -
    have "last layer_sizes \<in> set layer_sizes" using sz by simp
    with nn have "0 \<le> last layer_sizes" by blast
    with od have "odd (nat (last layer_sizes))" by (simp add: even_nat_iff)
    then obtain m where "nat (last layer_sizes) = 2 * m + 1" by (rule oddE)
    then show ?thesis by simp
  qed
  have "\<forall>x. (\<forall>r\<in>set x. length r = nat (hd layer_sizes)) \<longrightarrow>
                (\<exists>mean var. forward ?self x = Inr (mean, var)
                   \<and> length mean = length x \<and> length var = length x
                   \<and> (\<forall>r\<in>set mean. length r = nat (last layer_sizes) div 2)
                   \<and> (\<forall>r\<in>set var. length r = nat (last layer_sizes) div 2 + 1))"
  proof (intro allI impI)
    fix x :: tensor2
    assume x: "\<forall>r\<in>set x. length r = nat (hd layer_sizes)"
    from build_layers_hidden [OF ls two x] obtain h where
      h: "hidden_layers (butlast ls) x = Inr h" "\<forall>r\<in>set h. length r = in_features (last ls)"
      by blast
    from linear_apply_ok [OF h(2)] obtain y where y: "linear_apply (last ls) h = Inr y"
      by blast
    let ?mean = "map (\<lambda>r. take (length r div 2) r) y"
    let ?var = "map (\<lambda>r. map (softplus_floor (1 / 1000)) (drop (length r div 2) r)) y"
    have fw: "forward ?self x = Inr (?mean, ?var)"
      using ne h(1) y by (simp add: forward_def)
    from build_layers_last [OF ls ne] linear_apply_width [OF y]
    have wd: "\<forall>r\<in>set y. length r = nat (last layer_sizes)"
      by simp
    have m: "\<forall>r\<in>set ?mean. length r = nat (last layer_sizes) div 2"
      using wd by auto
    have v: "\<forall>r\<in>set ?var. length r = nat (last layer_sizes) div 2 + 1"
      using wd w by auto
    from forward_length [OF fw] have "length ?mean = length x \<and> length ?var = length x" .
    with fw m v show "\<exists>mean var. forward ?self x = Inr (mean, var)
                   \<and> length mean = length x \<and> length var = length x
                   \<and> (\<forall>r\<in>set mean. length r = nat (last layer_sizes) div 2)
                   \<and> (\<forall>r\<in>set var. length r = nat (last layer_sizes) div 2 + 1)"
      by blast
  qed
  with init show ?thesis by blast
qed

theorem odd_width_accepted_witness:
  "LogitsProbabilityDistribution_init [1, 3] const_teacher ''cpu'' False (1 / 1000) False
             zero_loss 3 zero_weight zero_bias = Inr odd_model
   \<and> forward odd_model [[0]] = Inr ([[0]], [[ln 2 + 1 / 1000, ln 2 + 1 / 1000]])
   \<and> length [0::real] = nat (last [1, 3]) div 2
   \<and> length [ln 2 + 1 / 1000, ln 2 + 1 / (1000::real)] = nat (last [1, 3]) div 2 + 1"
proof -
  have nn: "\<forall>s\<in>set [1, 3 :: int]. 0 \<le> s" and two: "2 \<le> length [1, 3 :: int]"
    and lr: "(0::real) \<le> 1 / 1000" and od: "odd (last [1, 3 :: int])"
    by simp_all
  from odd_width_accepted [OF nn two lr od, of const_teacher "''cpu''" False False zero_loss 3
      zero_weight zero_bias]
  show ?thesis
    by (simp add: init_odd_model forward_odd_model)
qed

section \<open>Sampling a data set in test mode\<close>

lemma mkdir_parents_files: "mkdir_parents p fs = Inr fs1 \<Longrightarrow> files fs1 = files fs"
  by (auto simp: mkdir_parents_def split: if_splits)

lemma sample_new_data_test_mode:
  assumes "\<not> train self"
  shows "\<exists>e fs'. sample_new_data self rng fs = (Inl e, fs') \<and> files fs' = files fs"
proof (cases "mkdir_parents (butlast (data_file self)) fs")
  case (Inl e)
  then show ?thesis by (simp add: sample_new_data_def)
next
  case (Inr fs1)
  with assms mkdir_parents_files [OF Inr] show ?thesis
    by (simp add: sample_new_data_def Let_def)
qed

lemma sample_new_data_writes:
  assumes "sample_new_data self rng fs = (r, fs')" and "files fs' \<noteq> files fs"
  shows "train self"
proof (rule ccontr)
  assume "\<not> train self"
  from sample_new_data_test_mode [OF this, of rng fs] assms show False by auto
qed

text \<open>
  Claim C10. When no stored file is reused, constructing \<open>GaussianSinus\<close> with
  \<open>train=False\<close> fails, and the regular files are those from before the call: nothing is
  written. A construction after which the files differ is one with \<open>train=True\<close>.
\<close>

theorem test_mode_never_writes:
  assumes "\<not> (path_exists fs store_file \<and> reuse_data)"
  shows "(\<exists>e fs'. GaussianSinus_init store_file False reuse_data n rng fs = (Inl e, fs')
            \<and> files fs' = files fs)
         \<and> (\<forall>trn r fs'. GaussianSinus_init store_file trn reuse_data n rng fs = (r, fs')
              \<and> files fs' \<noteq> files fs \<longrightarrow> trn)"
proof
  let ?self = "\<lparr>n_samples = n, train = False, data_file = store_file\<rparr>"
  have "\<not> train ?self" by simp
  from sample_new_data_test_mode [OF this, of rng fs] obtain e fs' where
    "sample_new_data ?self rng fs = (Inl e, fs')" "files fs' = files fs"
    by blast
  with assms show "\<exists>e fs'. GaussianSinus_init store_file False reuse_data n rng fs = (Inl e, fs')
            \<and> files fs' = files fs"
    by (auto simp: GaussianSinus_init_def)
next
  show "\<forall>trn r fs'. GaussianSinus_init store_file trn reuse_data n rng fs = (r, fs')
              \<and> files fs' \<noteq> files fs \<longrightarrow> trn"
  proof (intro allI impI)
    fix trn r fs'
    assume a: "GaussianSinus_init store_file trn reuse_data n rng fs = (r, fs')
              \<and> files fs' \<noteq> files fs"
    let ?self = "\<lparr>n_samples = n, train = trn, data_file = store_file\<rparr>"
    obtain r0 where "sample_new_data ?self rng fs = (r0, fs')"
      using a assms by (cases "sample_new_data ?self rng fs")
        (auto simp: GaussianSinus_init_def split: sum.splits)
    from sample_new_data_writes [OF this] a show trn by simp
  qed
qed

lemma init_test_mode_example:
  "GaussianSinus_init [''data'', ''sinus_test''] False False 3 fixed_rng empty_fs
     = (Inl UnboundLocalError, empty_fs\<lparr>dirs := {[], [''data'']}\<rparr>)"
  by (auto simp: GaussianSinus_init_def sample_new_data_def mkdir_parents_def empty_fs_def
      fixed_rng_def path_exists_def Let_def)

theorem test_mode_never_writes_witness:
  "\<not> (path_exists empty_fs [''data'', ''sinus_test''] \<and> False)
   \<and> GaussianSinus_init [''data'', ''sinus_test''] False False 3 fixed_rng empty_fs
       = (Inl UnboundLocalError, empty_fs\<lparr>dirs := {[], [''data'']}\<rparr>)
   \<and> files (empty_fs\<lparr>dirs := {[], [''data'']}\<rparr>) = files empty_fs"
proof -
  have h: "\<not> (path_exists empty_fs [''data'', ''sinus_test''] \<and> False)" by simp
  from test_mode_never_writes [OF h, of 3 fixed_rng] init_test_mode_example
  show ?thesis by simp
qed

text \<open>The training branch does write the data file.\<close>

lemma init_train_mode_example:
  "GaussianSinus_init [''data'', ''sinus_train''] True False 1 fixed_rng empty_fs
     = (Inr \<lparr>n_samples = 1, train = True, data_file = [''data'', ''sinus_train'']\<rparr>,
        \<lparr>files = [[''data'', ''sinus_train''] \<mapsto> [[0, 0]]], dirs = {[], [''data'']}\<rparr>)"
  by (auto simp: GaussianSinus_init_def sample_new_data_def mkdir_parents_def empty_fs_def
      fixed_rng_def path_exists_def Let_def column_stack_def savetxt_def np_diag_def
      np_multivariate_normal_def)

section \<open>The uncertainty decomposition\<close>

lemma tangent_bound:
  assumes "0 \<le> p" and "0 < a"
  shows "- (p * ln p) \<le> - (p * ln a) - p + (a::real)"
proof (cases "p = 0")
  case True
  then show ?thesis using assms by simp
next
  case False
  with assms have p: "0 < p" by simp
  have "0 < a / p" using assms p by simp
  then have "ln (a / p) \<le> a / p - 1" by (rule ln_le_minus_one)
  then have "ln a - ln p \<le> a / p - 1" using p assms by (simp add: ln_div)
  then have "p * (ln a - ln p) \<le> p * (a / p - 1)"
    using p by (intro mult_left_mono) simp_all
  also have "p * (a / p - 1) = a - p" using p by (simp add: field_simps)
  finally show ?thesis by (simp add: algebra_simps)
qed

lemma sum_list_affine:
  "sum_list (map (\<lambda>p. - (p * c) - p + a) col) = - (sum_list col * c) - sum_list col + real (length col) * (a::real)"
  by (induction col) (simp_all add: algebra_simps)

lemma column_jensen:
  assumes nn: "\<forall>p\<in>set col. 0 \<le> (p::real)" and ne: "col \<noteq> []"
  shows "sum_list (map (\<lambda>p. - (p * ln p)) col)
           \<le> real (length col) * (- (sum_list col / real (length col) * ln (sum_list col / real (length col))))"
proof (cases "sum_list col = 0")
  case True
  have "sum_list col = 0 \<longleftrightarrow> (\<forall>p\<in>set col. p = 0)"
    using nn by (intro sum_list_nonneg_eq_0_iff) simp
  with True have "\<forall>p\<in>set col. p = 0" by simp
  then have "map (\<lambda>p. - (p * ln p)) col = map (\<lambda>p. 0) col"
    by (intro map_cong) simp_all
  then have "sum_list (map (\<lambda>p. - (p * ln p)) col) = sum_list (map (\<lambda>p. 0) col)"
    by (rule arg_cong)
  also have "\<dots> = 0" by simp
  finally show ?thesis using True by simp
next
  case False
  let ?n = "real (length col)"
  let ?a = "sum_list col / ?n"
  have n: "0 < ?n" using ne by simp
  have "0 \<le> sum_list col" using nn by (intro sum_list_nonneg) simp
  with False have "0 < sum_list col" by simp
  with n have a: "0 < ?a" by simp
  have "sum_list (map (\<lambda>p. - (p * ln p)) col) \<le> sum_list (map (\<lambda>p. - (p * ln ?a) - p + ?a) col)"
    by (rule sum_list_mono) (use nn a in \<open>simp add: tangent_bound\<close>)
  also have "\<dots> = - (sum_list col * ln ?a) - sum_list col + ?n * ?a"
    by (rule sum_list_affine)
  also have "\<dots> = ?n * (- (?a * ln ?a))"
    using n by (simp add: field_simps)
  finally show ?thesis .
qed

lemma sum_list_swap:
  "sum_list (map (\<lambda>r. sum_list (map (\<lambda>k. g r k) ks)) rs)
     = sum_list (map (\<lambda>k. sum_list (map (\<lambda>r. (g r k :: real)) rs)) ks)"
  by (induction rs) (simp_all add: sum_list_addf)

lemma entropy_nth:
  "length r = K \<Longrightarrow> entropy r = sum_list (map (\<lambda>k. - (r ! k * ln (r ! k))) [0..<K])"
proof -
  assume l: "length r = K"
  have "map (\<lambda>q. q * ln q) r = map (\<lambda>k. r ! k * ln (r ! k)) [0..<K]"
    using l by (intro nth_equalityI) simp_all
  then have "entropy r = - sum_list (map (\<lambda>k. r ! k * ln (r ! k)) [0..<K])"
    by (simp add: entropy_def)
  also have "\<dots> = sum_list (map (\<lambda>k. - (r ! k * ln (r ! k))) [0..<K])"
    by (simp add: uminus_sum_list_map comp_def)
  finally show ?thesis .
qed

lemma mean_over_samples_eq:
  assumes "ss \<noteq> []" and "\<forall>r\<in>set ss. length r = K"
  shows "mean_over_samples ss = map (\<lambda>k. sum_list (map (\<lambda>r. r ! k) ss) / real (length ss)) [0..<K]"
  using assms by (cases ss) (simp_all add: mean_over_samples_def)

lemma aleatoric_le_total:
  assumes ne: "ss \<noteq> []" and rect: "\<forall>r\<in>set ss. length r = K"
    and nn: "\<forall>r\<in>set ss. \<forall>p\<in>set r. 0 \<le> p"
  shows "sum_list (map entropy ss) / real (length ss) \<le> entropy (mean_over_samples ss)"
proof -
  let ?S = "real (length ss)"
  let ?m = "\<lambda>k. sum_list (map (\<lambda>r. r ! k) ss) / ?S"
  have S: "0 < ?S" using ne by simp
  have "map entropy ss = map (\<lambda>r. sum_list (map (\<lambda>k. - (r ! k * ln (r ! k))) [0..<K])) ss"
    using rect by (intro map_cong) (simp_all add: entropy_nth)
  then have "sum_list (map entropy ss)
      = sum_list (map (\<lambda>r. sum_list (map (\<lambda>k. - (r ! k * ln (r ! k))) [0..<K])) ss)"
    by (rule arg_cong)
  also have "\<dots> = sum_list (map (\<lambda>k. sum_list (map (\<lambda>r. - (r ! k * ln (r ! k))) ss)) [0..<K])"
    by (rule sum_list_swap)
  also have "\<dots> \<le> sum_list (map (\<lambda>k. ?S * (- (?m k * ln (?m k)))) [0..<K])"
  proof (rule sum_list_mono)
    fix k assume "k \<in> set [0..<K]"
    then have k: "k < K" by simp
    let ?col = "map (\<lambda>r. r ! k) ss"
    have "\<forall>p\<in>set ?col. 0 \<le> p"
      using nn rect k by auto
    moreover have "?col \<noteq> []" using ne by simp
    ultimately have "sum_list (map (\<lambda>p. - (p * ln p)) ?col)
           \<le> real (length ?col) * (- (sum_list ?col / real (length ?col) * ln (sum_list ?col / real (length ?col))))"
      by (rule column_jensen)
    then show "sum_list (map (\<lambda>r. - (r ! k * ln (r ! k))) ss) \<le> ?S * (- (?m k * ln (?m k)))"
      by (simp add: comp_def)
  qed
  also have "\<dots> = ?S * sum_list (map (\<lambda>k. - (?m k * ln (?m k))) [0..<K])"
    by (simp only: sum_list_const_mult)
  also have "sum_list (map (\<lambda>k. - (?m k * ln (?m k))) [0..<K]) = entropy (mean_over_samples ss)"
    by (simp add: mean_over_samples_eq [OF ne rect] entropy_def comp_def uminus_sum_list_map)
  finally have "sum_list (map entropy ss) \<le> ?S * entropy (mean_over_samples ss)" .
  with S show ?thesis by (simp add: field_simps)
qed

lemma entropy_nonneg:
  assumes "\<forall>p\<in>set r. 0 \<le> p \<and> p \<le> 1"
  shows "0 \<le> entropy r"
proof -
  have "sum_list (map (\<lambda>q. q * ln q) r) \<le> 0"
  proof (rule sum_list_nonpos)
    fix x assume "x \<in> set (map (\<lambda>q. q * ln q) r)"
    then obtain q where q: "q \<in> set r" and x: "x = q * ln q" by auto
    from assms q have "0 \<le> q" "q \<le> 1" by simp_all
    then have "q * ln q \<le> 0"
      by (cases "q = 0") (simp_all add: mult_nonneg_nonpos)
    with x show "x \<le> 0" by simp
  qed
  then show ?thesis by (simp add: entropy_def)
qed

lemma sum_list_le_length:
  "\<forall>p\<in>set col. p \<le> (1::real) \<Longrightarrow> sum_list col \<le> real (length col)"
  by (induction col) auto

lemma mean_in_unit:
  assumes ne: "ss \<noteq> []" and rect: "\<forall>r\<in>set ss. length r = K"
    and rg: "\<forall>r\<in>set ss. \<forall>p\<in>set r. 0 \<le> p \<and> p \<le> 1"
  shows "\<forall>p\<in>set (mean_over_samples ss). 0 \<le> p \<and> p \<le> 1"
proof
  fix p assume "p \<in> set (mean_over_samples ss)"
  then obtain k where k: "k < K"
    and p: "p = sum_list (map (\<lambda>r. r ! k) ss) / real (length ss)"
    by (auto simp: mean_over_samples_eq [OF ne rect])
  let ?col = "map (\<lambda>r. r ! k) ss"
  have c: "\<forall>q\<in>set ?col. 0 \<le> q \<and> q \<le> 1" using rg rect k by auto
  then have "0 \<le> sum_list ?col" by (intro sum_list_nonneg) auto
  moreover have "sum_list ?col \<le> real (length ?col)"
    using c by (intro sum_list_le_length) simp
  moreover have "0 < real (length ss)" using ne by simp
  ultimately show "0 \<le> p \<and> p \<le> 1" using p by (simp add: divide_le_eq)
qed


text \<open>
  Claim C2. For a predictive sample set (per example at least one draw, all draws of one
  width, every component between 0 and 1), \<open>uncertainty_separation_entropy\<close> returns, per
  example, a total that is the entropy of the sample-averaged distribution, an aleatoric
  part that is the mean of the per-sample entropies and an epistemic part that is total
  minus aleatoric; the total is the sum of the other two, and all three are non-negative
  (the epistemic part by concavity of the entropy).
\<close>

theorem uncertainty_decomposition:
  assumes ne: "\<forall>ss\<in>set pd. ss \<noteq> []"
    and rect: "\<forall>ss\<in>set pd. \<forall>r\<in>set ss. length r = K"
    and rg: "\<forall>ss\<in>set pd. \<forall>r\<in>set ss. \<forall>p\<in>set r. 0 \<le> p \<and> p \<le> 1"
    and u: "uncertainty_separation_entropy pd labels = (tot_unc, ep_unc, al_unc)"
  shows "length tot_unc = length pd \<and> length ep_unc = length pd \<and> length al_unc = length pd
         \<and> (\<forall>i<length pd.
               tot_unc ! i = al_unc ! i + ep_unc ! i
               \<and> 0 \<le> tot_unc ! i \<and> 0 \<le> ep_unc ! i \<and> 0 \<le> al_unc ! i
               \<and> tot_unc ! i = entropy (mean_over_samples (pd ! i))
               \<and> al_unc ! i = sum_list (map entropy (pd ! i)) / real (length (pd ! i))
               \<and> ep_unc ! i = tot_unc ! i - al_unc ! i)"
proof -
  from u have t: "tot_unc = map (\<lambda>ss. entropy (mean_over_samples ss)) pd"
    and a: "al_unc = map (\<lambda>ss. sum_list (map entropy ss) / real (length ss)) pd"
    and e: "ep_unc = map2 (-) tot_unc al_unc"
    by (auto simp: uncertainty_separation_entropy_def Let_def)
  have len: "length tot_unc = length pd" "length al_unc = length pd" "length ep_unc = length pd"
    by (simp_all add: t a e)
  have "\<forall>i<length pd.
               tot_unc ! i = al_unc ! i + ep_unc ! i
               \<and> 0 \<le> tot_unc ! i \<and> 0 \<le> ep_unc ! i \<and> 0 \<le> al_unc ! i
               \<and> tot_unc ! i = entropy (mean_over_samples (pd ! i))
               \<and> al_unc ! i = sum_list (map entropy (pd ! i)) / real (length (pd ! i))
               \<and> ep_unc ! i = tot_unc ! i - al_unc ! i"
  proof (intro allI impI)
    fix i assume i: "i < length pd"
    let ?ss = "pd ! i"
    from i have mem: "?ss \<in> set pd" by simp
    with ne rect rg have ss: "?ss \<noteq> []" "\<forall>r\<in>set ?ss. length r = K"
      "\<forall>r\<in>set ?ss. \<forall>p\<in>set r. 0 \<le> p \<and> p \<le> 1"
      by simp_all
    have ti: "tot_unc ! i = entropy (mean_over_samples ?ss)"
      using i by (simp add: t)
    have ai: "al_unc ! i = sum_list (map entropy ?ss) / real (length ?ss)"
      using i by (simp add: a)
    have ei: "ep_unc ! i = tot_unc ! i - al_unc ! i"
      using i len by (simp add: e)
    have t0: "0 \<le> tot_unc ! i"
      unfolding ti by (rule entropy_nonneg) (rule mean_in_unit [OF ss])
    have "0 \<le> sum_list (map entropy ?ss)"
      by (intro sum_list_nonneg) (use ss(3) in \<open>auto intro: entropy_nonneg\<close>)
    then have a0: "0 \<le> al_unc ! i"
      unfolding ai by simp
    have "\<forall>r\<in>set ?ss. \<forall>p\<in>set r. 0 \<le> p" using ss(3) by simp
    from aleatoric_le_total [OF ss(1,2) this] have e0: "0 \<le> ep_unc ! i"
      unfolding ei ti ai by simp
    from ti ai ei t0 a0 e0
    show "tot_unc ! i = al_unc ! i + ep_unc ! i
               \<and> 0 \<le> tot_unc ! i \<and> 0 \<le> ep_unc ! i \<and> 0 \<le> al_unc ! i
               \<and> tot_unc ! i = entropy (mean_over_samples (pd ! i))
               \<and> al_unc ! i = sum_list (map entropy (pd ! i)) / real (length (pd ! i))
               \<and> ep_unc ! i = tot_unc ! i - al_unc ! i"
      by simp
  qed
  with len show ?thesis by blast
qed

theorem uncertainty_decomposition_witness:
  "fst (uncertainty_separation_entropy example_distribution None) ! 0
     = snd (snd (uncertainty_separation_entropy example_distribution None)) ! 0
       + fst (snd (uncertainty_separation_entropy example_distribution None)) ! 0
   \<and> 0 \<le> fst (uncertainty_separation_entropy example_distribution None) ! 0
   \<and> 0 \<le> fst (snd (uncertainty_separation_entropy example_distribution None)) ! 0
   \<and> 0 \<le> snd (snd (uncertainty_separation_entropy example_distribution None)) ! 0
   \<and> snd (snd (uncertainty_separation_entropy example_distribution None)) ! 0 = ln 2 / 2"
proof -
  have ne: "\<forall>ss\<in>set example_distribution. ss \<noteq> []"
    and rect: "\<forall>ss\<in>set example_distribution. \<forall>r\<in>set ss. length r = 2"
    and rg: "\<forall>ss\<in>set example_distribution. \<forall>r\<in>set ss. \<forall>p\<in>set r. 0 \<le> p \<and> p \<le> 1"
    by (simp_all add: example_distribution_def)
  have u: "uncertainty_separation_entropy example_distribution None
       = (fst (uncertainty_separation_entropy example_distribution None),
          fst (snd (uncertainty_separation_entropy example_distribution None)),
          snd (snd (uncertainty_separation_entropy example_distribution None)))"
    by simp
  have l: "0 < length example_distribution" by (simp add: example_distribution_def)
  have al: "snd (snd (uncertainty_separation_entropy example_distribution None)) ! 0 = ln 2 / 2"
    by (simp add: uncertainty_separation_entropy_def example_distribution_def entropy_def
        Let_def ln_div)
  from uncertainty_decomposition [OF ne rect rg u] l al show ?thesis by blast
qed

end
